theory Spec2Isabelle
  imports Main "HOL-Library.Word"
begin

unbundle bit_operations_syntax

section \<open>Bytes and hexadecimal text\<close>

text \<open>
  A Python \<^verbatim>\<open>bytes\<close> value is a list of 8-bit words. A Python \<^verbatim>\<open>str\<close> is a
  \<^typ>\<open>string\<close>, one \<^typ>\<open>char\<close> per code point (code points below 256).
\<close>

type_synonym byte = "8 word"
type_synonym bytes = "byte list"
type_synonym u32 = "32 word"
type_synonym u64 = "64 word"

text \<open>
  The exceptions the modelled code can raise; \<open>OtherError\<close> is any other exception, by the
  name of its class, that a library call outside the repository raises.
\<close>

datatype error =
    FileNotFoundError
  | IsADirectoryError
  | OSError
  | ValueError
  | BinasciiError
  | ValueOutOfBounds
  | IndexError
  | KeyError
  | OtherError string

text \<open>\<^verbatim>\<open>bytes.hex()\<close> and \<^verbatim>\<open>hexdigest()\<close>: two lowercase hexadecimal digits per byte.\<close>

definition hex_alphabet :: string where
  "hex_alphabet = ''0123456789abcdef''"

definition hex_digit :: "nat \<Rightarrow> char" where
  "hex_digit n = hex_alphabet ! n"

definition hex_of_byte :: "byte \<Rightarrow> string" where
  "hex_of_byte b = [hex_digit (unat b div 16), hex_digit (unat b mod 16)]"

definition hexlify :: "bytes \<Rightarrow> string" where
  "hexlify bs = concat (map hex_of_byte bs)"

text \<open>The value of a hexadecimal digit, of either case.\<close>

definition hex_val :: "char \<Rightarrow> nat option" where
  "hex_val c =
     (let n = (of_char c :: nat)
      in if 48 \<le> n \<and> n \<le> 57 then Some (n - 48)
         else if 97 \<le> n \<and> n \<le> 102 then Some (n - 87)
         else if 65 \<le> n \<and> n \<le> 70 then Some (n - 55)
         else None)"

text \<open>\<^verbatim>\<open>binascii.unhexlify\<close>: pairs of hexadecimal digits, nothing else.\<close>

fun unhexlify :: "string \<Rightarrow> error + bytes" where
  "unhexlify [] = Inr []"
| "unhexlify [c] = Inl BinasciiError"
| "unhexlify (c # d # rest) =
     (case (hex_val c, hex_val d) of
        (Some a, Some b) \<Rightarrow>
          (case unhexlify rest of
             Inl e \<Rightarrow> Inl e
           | Inr bs \<Rightarrow> Inr (of_nat (16 * a + b) # bs))
      | _ \<Rightarrow> Inl BinasciiError)"

text \<open>
  \<^verbatim>\<open>bytes.fromhex\<close>: as above, but ASCII whitespace before a pair of digits is skipped,
  and the failure is a \<^verbatim>\<open>ValueError\<close>.
\<close>

definition is_space :: "char \<Rightarrow> bool" where
  "is_space c \<longleftrightarrow> (of_char c :: nat) \<in> {9, 10, 11, 12, 13, 32}"

fun bytes_fromhex :: "string \<Rightarrow> error + bytes" where
  "bytes_fromhex [] = Inr []"
| "bytes_fromhex (c # cs) =
     (if is_space c then bytes_fromhex cs
      else (case cs of
              [] \<Rightarrow> Inl ValueError
            | d # rest \<Rightarrow>
                (case (hex_val c, hex_val d) of
                   (Some a, Some b) \<Rightarrow>
                     (case bytes_fromhex rest of
                        Inl e \<Rightarrow> Inl e
                      | Inr bs \<Rightarrow> Inr (of_nat (16 * a + b) # bs))
                 | _ \<Rightarrow> Inl ValueError)))"

text \<open>
  \<^verbatim>\<open>Web3.to_bytes(hexstr=...)\<close>: an optional \<^verbatim>\<open>0x\<close> prefix is removed, a string of odd
  length gets a leading zero digit, and the rest is unhexlified.
\<close>

definition remove_0x_prefix :: "string \<Rightarrow> string" where
  "remove_0x_prefix s = (if take 2 s = ''0x'' \<or> take 2 s = ''0X'' then drop 2 s else s)"

definition decode_hex :: "string \<Rightarrow> error + bytes" where
  "decode_hex s = unhexlify (remove_0x_prefix s)"

definition to_bytes_hexstr :: "string \<Rightarrow> error + bytes" where
  "to_bytes_hexstr hexstr =
     (if odd (length hexstr) then decode_hex (''0x0'' @ remove_0x_prefix hexstr)
      else decode_hex hexstr)"

text \<open>\<^verbatim>\<open>str.encode("utf-8")\<close> on code points below 256.\<close>

definition utf8_char :: "char \<Rightarrow> bytes" where
  "utf8_char c =
     (let n = (of_char c :: nat)
      in if n < 128 then [of_nat n] else [of_nat (192 + n div 64), of_nat (128 + n mod 64)])"

definition utf8 :: "string \<Rightarrow> bytes" where
  "utf8 s = concat (map utf8_char s)"

fun chunks :: "nat \<Rightarrow> 'a list \<Rightarrow> 'a list list" where
  "chunks n [] = []"
| "chunks n (x # xs) =
     (if n = 0 then [] else take n (x # xs) # chunks n (drop n (x # xs)))"

section \<open>SHA-256 (\<^verbatim>\<open>hashlib.sha256\<close>)\<close>

definition rotr32 :: "nat \<Rightarrow> u32 \<Rightarrow> u32" where
  "rotr32 n x = drop_bit n x OR push_bit (32 - n) x"

definition Ch :: "u32 \<Rightarrow> u32 \<Rightarrow> u32 \<Rightarrow> u32" where
  "Ch x y z = (x AND y) XOR (NOT x AND z)"

definition Maj :: "u32 \<Rightarrow> u32 \<Rightarrow> u32 \<Rightarrow> u32" where
  "Maj x y z = (x AND y) XOR (x AND z) XOR (y AND z)"

definition big_sigma0 :: "u32 \<Rightarrow> u32" where
  "big_sigma0 x = rotr32 2 x XOR rotr32 13 x XOR rotr32 22 x"

definition big_sigma1 :: "u32 \<Rightarrow> u32" where
  "big_sigma1 x = rotr32 6 x XOR rotr32 11 x XOR rotr32 25 x"

definition small_sigma0 :: "u32 \<Rightarrow> u32" where
  "small_sigma0 x = rotr32 7 x XOR rotr32 18 x XOR drop_bit 3 x"

definition small_sigma1 :: "u32 \<Rightarrow> u32" where
  "small_sigma1 x = rotr32 17 x XOR rotr32 19 x XOR drop_bit 10 x"

definition sha256_K :: "u32 list" where
  "sha256_K =
    [0x428A2F98, 0x71374491, 0xB5C0FBCF, 0xE9B5DBA5, 0x3956C25B, 0x59F111F1, 0x923F82A4, 0xAB1C5ED5,
     0xD807AA98, 0x12835B01, 0x243185BE, 0x550C7DC3, 0x72BE5D74, 0x80DEB1FE, 0x9BDC06A7, 0xC19BF174,
     0xE49B69C1, 0xEFBE4786, 0x0FC19DC6, 0x240CA1CC, 0x2DE92C6F, 0x4A7484AA, 0x5CB0A9DC, 0x76F988DA,
     0x983E5152, 0xA831C66D, 0xB00327C8, 0xBF597FC7, 0xC6E00BF3, 0xD5A79147, 0x06CA6351, 0x14292967,
     0x27B70A85, 0x2E1B2138, 0x4D2C6DFC, 0x53380D13, 0x650A7354, 0x766A0ABB, 0x81C2C92E, 0x92722C85,
     0xA2BFE8A1, 0xA81A664B, 0xC24B8B70, 0xC76C51A3, 0xD192E819, 0xD6990624, 0xF40E3585, 0x106AA070,
     0x19A4C116, 0x1E376C08, 0x2748774C, 0x34B0BCB5, 0x391C0CB3, 0x4ED8AA4A, 0x5B9CCA4F, 0x682E6FF3,
     0x748F82EE, 0x78A5636F, 0x84C87814, 0x8CC70208, 0x90BEFFFA, 0xA4506CEB, 0xBEF9A3F7, 0xC67178F2]"

fun be_words32 :: "bytes \<Rightarrow> u32 list" where
  "be_words32 (a # b # c # d # rest) =
     (push_bit 24 (ucast a) OR push_bit 16 (ucast b) OR push_bit 8 (ucast c) OR ucast d)
       # be_words32 rest"
| "be_words32 _ = []"

definition be_bytes32 :: "u32 \<Rightarrow> bytes" where
  "be_bytes32 w = [ucast (drop_bit 24 w), ucast (drop_bit 16 w), ucast (drop_bit 8 w), ucast w]"

definition be_bytes64 :: "u64 \<Rightarrow> bytes" where
  "be_bytes64 w =
     [ucast (drop_bit 56 w), ucast (drop_bit 48 w), ucast (drop_bit 40 w), ucast (drop_bit 32 w),
      ucast (drop_bit 24 w), ucast (drop_bit 16 w), ucast (drop_bit 8 w), ucast w]"

definition sha256_pad :: "bytes \<Rightarrow> bytes" where
  "sha256_pad m =
     m @ [0x80] @ replicate ((64 - (length m + 9) mod 64) mod 64) 0
       @ be_bytes64 (of_nat (8 * length m))"

fun sha256_schedule :: "nat \<Rightarrow> u32 list \<Rightarrow> u32 list" where
  "sha256_schedule 0 w = w"
| "sha256_schedule (Suc n) w =
     sha256_schedule n
       (w @ [small_sigma1 (w ! (length w - 2)) + w ! (length w - 7)
             + small_sigma0 (w ! (length w - 15)) + w ! (length w - 16)])"

type_synonym sha_state = "u32 \<times> u32 \<times> u32 \<times> u32 \<times> u32 \<times> u32 \<times> u32 \<times> u32"

fun sha256_round :: "sha_state \<Rightarrow> u32 \<times> u32 \<Rightarrow> sha_state" where
  "sha256_round (a, b, c, d, e, f, g, h) (k, w) =
     (let t1 = h + big_sigma1 e + Ch e f g + k + w;
          t2 = big_sigma0 a + Maj a b c
      in (t1 + t2, a, b, c, d + t1, e, f, g))"

fun sha256_compress :: "sha_state \<Rightarrow> bytes \<Rightarrow> sha_state" where
  "sha256_compress (a, b, c, d, e, f, g, h) block =
     (case foldl sha256_round (a, b, c, d, e, f, g, h)
             (zip sha256_K (sha256_schedule 48 (be_words32 block))) of
        (a', b', c', d', e', f', g', h') \<Rightarrow>
          (a + a', b + b', c + c', d + d', e + e', f + f', g + g', h + h'))"

definition sha256 :: "bytes \<Rightarrow> bytes" where
  "sha256 m =
     (case foldl sha256_compress
             (0x6A09E667, 0xBB67AE85, 0x3C6EF372, 0xA54FF53A,
              0x510E527F, 0x9B05688C, 0x1F83D9AB, 0x5BE0CD19)
             (chunks 64 (sha256_pad m)) of
        (a, b, c, d, e, f, g, h) \<Rightarrow> concat (map be_bytes32 [a, b, c, d, e, f, g, h]))"

definition sha256_hexdigest :: "bytes \<Rightarrow> string" where
  "sha256_hexdigest m = hexlify (sha256 m)"

section \<open>Keccak-256 (\<^verbatim>\<open>Web3.keccak\<close>)\<close>

text \<open>
  The sponge over Keccak-f[1600] with rate 136 bytes and the original Keccak padding
  (first padding byte 1, not the 6 of SHA3-256). The state is the list of 25 lanes, lane
  \<open>(x, y)\<close> at index \<open>x + 5 * y\<close>.
\<close>

definition rotl64 :: "nat \<Rightarrow> u64 \<Rightarrow> u64" where
  "rotl64 n x = push_bit n x OR drop_bit (64 - n) x"

definition keccak_RC :: "u64 list" where
  "keccak_RC =
    [0x0000000000000001, 0x0000000000008082, 0x800000000000808A, 0x8000000080008000,
     0x000000000000808B, 0x0000000080000001, 0x8000000080008081, 0x8000000000008009,
     0x000000000000008A, 0x0000000000000088, 0x0000000080008009, 0x000000008000000A,
     0x000000008000808B, 0x800000000000008B, 0x8000000000008089, 0x8000000000008003,
     0x8000000000008002, 0x8000000000000080, 0x000000000000800A, 0x800000008000000A,
     0x8000000080008081, 0x8000000000008080, 0x0000000080000001, 0x8000000080008008]"

definition keccak_rot :: "nat list" where
  "keccak_rot =
    [0, 1, 62, 28, 27, 36, 44, 6, 55, 20, 3, 10, 43, 25, 39, 41, 45, 15, 21, 8, 18, 2, 61, 56, 14]"

definition theta :: "u64 list \<Rightarrow> u64 list" where
  "theta a =
     (let c = map (\<lambda>x. a ! x XOR a ! (x + 5) XOR a ! (x + 10) XOR a ! (x + 15) XOR a ! (x + 20))
                [0..<5];
          d = map (\<lambda>x. c ! ((x + 4) mod 5) XOR rotl64 1 (c ! ((x + 1) mod 5))) [0..<5]
      in map (\<lambda>i. a ! i XOR d ! (i mod 5)) [0..<25])"

definition rho_pi :: "u64 list \<Rightarrow> u64 list" where
  "rho_pi a =
     map (\<lambda>j. let src = (j mod 5 + 3 * (j div 5)) mod 5 + 5 * (j mod 5)
              in rotl64 (keccak_rot ! src) (a ! src)) [0..<25]"

definition chi :: "u64 list \<Rightarrow> u64 list" where
  "chi b =
     map (\<lambda>i. b ! i XOR (NOT (b ! ((i mod 5 + 1) mod 5 + 5 * (i div 5)))
                          AND b ! ((i mod 5 + 2) mod 5 + 5 * (i div 5)))) [0..<25]"

definition iota :: "u64 \<Rightarrow> u64 list \<Rightarrow> u64 list" where
  "iota rc a = a[0 := a ! 0 XOR rc]"

definition keccak_round :: "u64 list \<Rightarrow> u64 \<Rightarrow> u64 list" where
  "keccak_round a rc = iota rc (chi (rho_pi (theta a)))"

definition keccak_f :: "u64 list \<Rightarrow> u64 list" where
  "keccak_f a = foldl keccak_round a keccak_RC"

fun le_words64 :: "bytes \<Rightarrow> u64 list" where
  "le_words64 (b0 # b1 # b2 # b3 # b4 # b5 # b6 # b7 # rest) =
     (ucast b0 OR push_bit 8 (ucast b1) OR push_bit 16 (ucast b2) OR push_bit 24 (ucast b3)
      OR push_bit 32 (ucast b4) OR push_bit 40 (ucast b5) OR push_bit 48 (ucast b6)
      OR push_bit 56 (ucast b7)) # le_words64 rest"
| "le_words64 _ = []"

definition le_bytes64 :: "u64 \<Rightarrow> bytes" where
  "le_bytes64 w =
     [ucast w, ucast (drop_bit 8 w), ucast (drop_bit 16 w), ucast (drop_bit 24 w),
      ucast (drop_bit 32 w), ucast (drop_bit 40 w), ucast (drop_bit 48 w), ucast (drop_bit 56 w)]"

definition keccak_pad :: "bytes \<Rightarrow> bytes" where
  "keccak_pad m =
     (let z = 135 - length m mod 136
      in if z = 0 then m @ [0x81] else m @ [0x01] @ replicate (z - 1) 0 @ [0x80])"

definition absorb :: "u64 list \<Rightarrow> bytes \<Rightarrow> u64 list" where
  "absorb a block =
     keccak_f (map (\<lambda>(s, w). s XOR w) (zip a (le_words64 block @ replicate 8 0)))"

definition keccak256 :: "bytes \<Rightarrow> bytes" where
  "keccak256 m =
     take 32 (concat (map le_bytes64
       (foldl absorb (replicate 25 0) (chunks 136 (keccak_pad m)))))"

definition keccak_text :: "string \<Rightarrow> bytes" where
  "keccak_text s = keccak256 (utf8 s)"

section \<open>ABI encoding (\<^verbatim>\<open>eth_abi.abi.encode\<close>)\<close>

text \<open>
  The values of the four ABI types the program encodes. \<open>bytes32[]\<close> and \<open>string\<close> are
  dynamic: their head is an offset and their encoding goes to the tail.
\<close>

datatype abi_value =
    Bytes32Array "bytes list"
  | Uint64 int
  | Bytes32 bytes
  | String string

fun is_dynamic :: "abi_value \<Rightarrow> bool" where
  "is_dynamic (Bytes32Array _) = True"
| "is_dynamic (String _) = True"
| "is_dynamic _ = False"

text \<open>The \<open>k\<close> low bytes of a number, most significant first.\<close>

fun big_endian :: "nat \<Rightarrow> nat \<Rightarrow> bytes" where
  "big_endian 0 n = []"
| "big_endian (Suc k) n = big_endian k (n div 256) @ [of_nat n]"

definition encode_uint_256 :: "nat \<Rightarrow> bytes" where
  "encode_uint_256 n = big_endian 32 n"

definition zpad_right :: "bytes \<Rightarrow> nat \<Rightarrow> bytes" where
  "zpad_right b n = b @ replicate (n - length b) 0"

definition ceil32 :: "nat \<Rightarrow> nat" where
  "ceil32 n = (if n mod 32 = 0 then n else n + 32 - n mod 32)"

text \<open>
  One value. A \<open>bytes32\<close> of fewer than 32 bytes is padded with zeros on the right, one of
  more is refused; a \<open>uint64\<close> outside \<open>0 .. 2^64 - 1\<close> is refused.
\<close>

fun encode_value :: "abi_value \<Rightarrow> error + bytes" where
  "encode_value (Bytes32Array bs) =
     (if \<forall>b \<in> set bs. length b \<le> 32
      then Inr (encode_uint_256 (length bs) @ concat (map (\<lambda>b. zpad_right b 32) bs))
      else Inl ValueOutOfBounds)"
| "encode_value (Uint64 v) =
     (if 0 \<le> v \<and> v < 2 ^ 64 then Inr (encode_uint_256 (nat v)) else Inl ValueOutOfBounds)"
| "encode_value (Bytes32 b) =
     (if length b \<le> 32 then Inr (zpad_right b 32) else Inl ValueOutOfBounds)"
| "encode_value (String s) =
     Inr (encode_uint_256 (length (utf8 s)) @ zpad_right (utf8 s) (ceil32 (length (utf8 s))))"

fun encode_all :: "abi_value list \<Rightarrow> error + bytes list" where
  "encode_all [] = Inr []"
| "encode_all (v # vs) =
     (case encode_value v of
        Inl e \<Rightarrow> Inl e
      | Inr c \<Rightarrow> (case encode_all vs of Inl e \<Rightarrow> Inl e | Inr cs \<Rightarrow> Inr (c # cs)))"

fun tail_offsets :: "nat \<Rightarrow> bytes list \<Rightarrow> nat list" where
  "tail_offsets acc [] = []"
| "tail_offsets acc (t # ts) = acc # tail_offsets (acc + length t) ts"

text \<open>
  The tuple: the heads in order (a static value itself, a dynamic one the offset of its
  tail from the start), then the tails in order.
\<close>

definition abi_encode :: "abi_value list \<Rightarrow> error + bytes" where
  "abi_encode vs =
     (case encode_all vs of
        Inl e \<Rightarrow> Inl e
      | Inr cs \<Rightarrow>
          (let dyn = map is_dynamic vs;
               head_length = sum_list (map (\<lambda>(d, c). if d then 32 else length c) (zip dyn cs));
               tail_chunks = map (\<lambda>(d, c). if d then c else []) (zip dyn cs);
               head_chunks =
                 map (\<lambda>((d, c), off). if d then encode_uint_256 (head_length + off) else c)
                   (zip (zip dyn cs) (tail_offsets 0 tail_chunks))
           in Inr (concat head_chunks @ concat tail_chunks)))"

section \<open>The content store (\<^verbatim>\<open>LocalIPFS\<close>)\<close>

text \<open>
  The store's root directory is a map from file names to file contents: its entries are
  regular files, as \<^verbatim>\<open>add_bytes\<close> writes them. The constructor creates the directory when
  it is absent and keeps what an existing one holds.
\<close>

type_synonym store = "string \<rightharpoonup> bytes"

text \<open>
  \<^verbatim>\<open>str.replace(old, new)\<close>: every occurrence of \<open>old\<close>, found from the left and not
  overlapping, becomes \<open>new\<close>.
\<close>

function str_replace :: "string \<Rightarrow> string \<Rightarrow> string \<Rightarrow> string" where
  "str_replace old new s =
     (if old = [] then new @ concat (map (\<lambda>c. c # new) s)
      else if s = [] then []
      else if take (length old) s = old then new @ str_replace old new (drop (length old) s)
      else hd s # str_replace old new (tl s))"
  by pat_completeness auto
termination
  by (relation "measure (\<lambda>(old, new, s). length s)") auto

declare str_replace.simps [simp del]

definition add_bytes :: "store \<Rightarrow> bytes \<Rightarrow> (string \<times> string) \<times> store" where
  "add_bytes root data =
     (let h = sha256_hexdigest data
      in ((h, ''ipfs://'' @ h), if root h = None then root(h \<mapsto> data) else root))"

text \<open>
  \<^verbatim>\<open>root / key\<close> reads the key as a path: it is cut at every \<open>/\<close>, and empty parts and
  the parts \<open>.\<close> are dropped.
\<close>

fun split_on :: "char \<Rightarrow> string \<Rightarrow> string list" where
  "split_on c [] = [[]]"
| "split_on c (x # xs) =
     (if x = c then [] # split_on c xs
      else (case split_on c xs of w # ws \<Rightarrow> (x # w) # ws | [] \<Rightarrow> [[x]]))"

definition path_names :: "string \<Rightarrow> string list" where
  "path_names key = filter (\<lambda>n. n \<noteq> [] \<and> n \<noteq> ''.'') (split_on CHR ''/'' key)"

text \<open>The longest file name, in bytes, that the file system takes (Linux: 255).\<close>

definition name_max :: nat where
  "name_max = 255"

text \<open>
  \<open>get outside root cid\<close>. After every \<open>ipfs://\<close> is removed from \<open>cid\<close>, the key is read
  as a path from the store directory and \<^verbatim>\<open>read_bytes\<close> opens it:
  \<^item> a key with a NUL character is refused with \<^verbatim>\<open>ValueError\<close>;
  \<^item> a key without names (empty, \<open>.\<close>) is the store directory itself, the key \<open>..\<close> its
    parent: \<^verbatim>\<open>IsADirectoryError\<close>;
  \<^item> a key of one name is the file of that name in the store directory: a name of more
    than \<open>name_max\<close> bytes raises a plain \<^verbatim>\<open>OSError\<close> (file name too long), a name that is
    absent \<^verbatim>\<open>FileNotFoundError\<close>;
  \<^item> an absolute key, and a key of several names, lead to a file that is not an entry of
    the store directory. What reading such a path yields is given by \<open>outside\<close>, the files
    around the store, which are not part of \<open>root\<close>.
\<close>

definition get :: "(string \<Rightarrow> error + bytes) \<Rightarrow> store \<Rightarrow> string \<Rightarrow> error + bytes" where
  "get outside root cid =
     (let key = str_replace ''ipfs://'' [] cid
      in if CHR 0x00 \<in> set key then Inl ValueError
         else if take 1 key = ''/'' then outside key
         else (case path_names key of
                 [] \<Rightarrow> Inl IsADirectoryError
               | [n] \<Rightarrow>
                   (if n = ''..'' then Inl IsADirectoryError
                    else if name_max < length (utf8 n) then Inl OSError
                    else (case root n of
                            None \<Rightarrow> Inl FileNotFoundError
                          | Some b \<Rightarrow> Inr b))
               | _ \<Rightarrow> outside key))"

section \<open>The commit command\<close>

record scores =
  accTimes1e4 :: int
  lossTimes1e4 :: int

text \<open>
  The record handed to \<^verbatim>\<open>addCommit\<close>. The fields are the keys of \<^verbatim>\<open>commit_input\<close>, each
  with the prefix \<open>ci_\<close>.
\<close>

record commit_input =
  ci_id :: bytes
  ci_parents :: "bytes list"
  ci_round :: int
  ci_clientsHash :: bytes
  ci_hyperparamsHash :: bytes
  ci_artifactHash :: bytes
  ci_artifactURI :: string
  ci_scores :: scores
  ci_aggregatorSig :: bytes

fun parents_fromhex :: "string list \<Rightarrow> error + bytes list" where
  "parents_fromhex [] = Inr []"
| "parents_fromhex (p # ps) =
     (case bytes_fromhex (drop 2 p) of
        Inl e \<Rightarrow> Inl e
      | Inr b \<Rightarrow> (case parents_fromhex ps of Inl e \<Rightarrow> Inl e | Inr bs \<Rightarrow> Inr (b # bs)))"

text \<open>
  \<open>commit ipfs data round parents\<close>: \<open>ipfs\<close> is the store directory, \<open>data\<close> the bytes of the
  artifact file, \<open>round\<close> and \<open>parents\<close> the command-line options. The result is the store
  afterwards and the record submitted to the ledger, or the exception raised before
  submission. Signing and sending the transaction is the ledger client's part.
\<close>

definition commit ::
  "store \<Rightarrow> bytes \<Rightarrow> int \<Rightarrow> string list \<Rightarrow> (error + commit_input) \<times> store" where
  "commit ipfs data rnd parents =
     (case add_bytes ipfs data of
        ((artifact_hash_str, artifact_uri), ipfs') \<Rightarrow>
          (let clients_hash = keccak_text ''client1,client2'';
               hparams_hash = keccak_text ''lr=0.01,bs=32''
           in case (if parents \<noteq> [] then parents_fromhex parents
                    else Inr [replicate 32 0]) of
                Inl e \<Rightarrow> (Inl e, ipfs')
              | Inr parent_bytes \<Rightarrow>
                  (case to_bytes_hexstr artifact_hash_str of
                     Inl e \<Rightarrow> (Inl e, ipfs')
                   | Inr artifact_hash \<Rightarrow>
                       (case abi_encode
                               [Bytes32Array parent_bytes, Uint64 rnd, Bytes32 clients_hash,
                                Bytes32 hparams_hash, Bytes32 artifact_hash,
                                String artifact_uri] of
                          Inl e \<Rightarrow> (Inl e, ipfs')
                        | Inr encoded \<Rightarrow>
                            (Inr \<lparr>ci_id = keccak256 encoded,
                                  ci_parents = parent_bytes,
                                  ci_round = rnd,
                                  ci_clientsHash = clients_hash,
                                  ci_hyperparamsHash = hparams_hash,
                                  ci_artifactHash = artifact_hash,
                                  ci_artifactURI = artifact_uri,
                                  ci_scores = \<lparr>accTimes1e4 = 0, lossTimes1e4 = 0\<rparr>,
                                  ci_aggregatorSig = []\<rparr>,
                             ipfs')))))"

section \<open>The deployment script\<close>

























section \<open>Hexadecimal text and the scheme prefix\<close>

lemma hex_digit_range: "n < 16 \<Longrightarrow> hex_digit n \<in> set hex_alphabet"
  unfolding hex_digit_def by (rule nth_mem) (simp add: hex_alphabet_def)

lemma byte_high_nibble: "unat (b :: byte) div 16 < 16"
  using unsigned_less [of b, where ?'a = nat] by simp

lemma hex_of_byte_chars: "set (hex_of_byte b) \<subseteq> set hex_alphabet"
  unfolding hex_of_byte_def
  using hex_digit_range [OF byte_high_nibble [of b]] hex_digit_range [of "unat b mod 16"]
  by simp

lemma hexlify_chars: "set (hexlify bs) \<subseteq> set hex_alphabet"
  unfolding hexlify_def using hex_of_byte_chars by (induction bs) simp_all

lemma hex_alphabet_no_i: "CHR ''i'' \<notin> set hex_alphabet"
  by (simp add: hex_alphabet_def)

lemma hex_alphabet_no_x: "CHR ''x'' \<notin> set hex_alphabet \<and> CHR ''X'' \<notin> set hex_alphabet"
  by (simp add: hex_alphabet_def)

lemma str_replace_absent:
  "c \<notin> set s \<Longrightarrow> str_replace (c # old) new s = s"
proof (induction s)
  case Nil
  show ?case by (subst str_replace.simps) simp
next
  case (Cons x xs)
  then have "x \<noteq> c" and "c \<notin> set xs"
    by auto
  with Cons.IH show ?case
    by (subst str_replace.simps) simp
qed

lemma str_replace_prefix:
  "old \<noteq> [] \<Longrightarrow> str_replace old new (old @ s) = new @ str_replace old new s"
  by (subst str_replace.simps) simp

lemma strip_hexlify: "str_replace ''ipfs://'' [] (hexlify bs) = hexlify bs"
proof (rule str_replace_absent)
  show "CHR ''i'' \<notin> set (hexlify bs)"
    using hexlify_chars [of bs] hex_alphabet_no_i by blast
qed

lemma strip_uri: "str_replace ''ipfs://'' [] (''ipfs://'' @ hexlify bs) = hexlify bs"
  using str_replace_prefix [of "''ipfs://''" "[]" "hexlify bs"] strip_hexlify [of bs]
  by simp

lemma strip_scheme: "str_replace ''ipfs://'' [] (''ipfs://'' @ s) = str_replace ''ipfs://'' [] s"
  using str_replace_prefix [of "''ipfs://''" "[]" s] by simp

lemma hex_val_hex_digit: "n < 16 \<Longrightarrow> hex_val (hex_digit n) = Some n"
proof -
  have "list_all (\<lambda>k. hex_val (hex_digit k) = Some k) [0..<16]"
    by code_simp
  then show "n < 16 \<Longrightarrow> hex_val (hex_digit n) = Some n"
    by (simp add: list_all_iff)
qed

lemma unhexlify_hexlify: "unhexlify (hexlify bs) = Inr bs"
proof (induction bs)
  case Nil
  then show ?case by (simp add: hexlify_def)
next
  case (Cons b bs)
  have hi: "unat b div 16 < 16"
    by (rule byte_high_nibble)
  have "(of_nat (16 * (unat b div 16) + unat b mod 16) :: byte) = b"
    by simp
  with Cons hi show ?case
    by (simp add: hexlify_def hex_of_byte_def hex_val_hex_digit)
qed

lemma length_hexlify: "length (hexlify bs) = 2 * length bs"
  by (induction bs) (simp_all add: hexlify_def hex_of_byte_def)

lemma hexlify_no_prefix: "remove_0x_prefix (hexlify bs) = hexlify bs"
proof (cases bs)
  case Nil
  then show ?thesis by (simp add: hexlify_def remove_0x_prefix_def)
next
  case (Cons b bs')
  have "hex_digit (unat b mod 16) \<in> set hex_alphabet"
    by (rule hex_digit_range) simp
  then have "hex_digit (unat b mod 16) \<noteq> CHR ''x'' \<and> hex_digit (unat b mod 16) \<noteq> CHR ''X''"
    using hex_alphabet_no_x by metis
  with Cons show ?thesis
    by (simp add: hexlify_def hex_of_byte_def remove_0x_prefix_def)
qed

lemma to_bytes_hexlify: "to_bytes_hexstr (hexlify bs) = Inr bs"
  by (simp add: to_bytes_hexstr_def decode_hex_def length_hexlify hexlify_no_prefix
      unhexlify_hexlify)

lemma length_sha256: "length (sha256 m) = 32"
  unfolding sha256_def by (simp add: be_bytes32_def split: prod.split)

lemma length_keccak256: "length (keccak256 m) \<le> 32"
  unfolding keccak256_def by simp

section \<open>Properties of the content store\<close>

lemma sha256_hello:
  "sha256_hexdigest [0x68, 0x65, 0x6C, 0x6C, 0x6F]
     = ''2cf24dba5fb0a30e26e83b2ac5b9e29e1b161e5c1fa7425e73043362938b9824''"
  by code_simp

lemma add_bytes_address:
  "fst (add_bytes root p) = (sha256_hexdigest p, ''ipfs://'' @ sha256_hexdigest p)"
  by (simp add: add_bytes_def Let_def)

text \<open>
  C2. For every payload, \<open>add_bytes\<close> returns the lowercase hexadecimal SHA-256 of the
  payload as digest and \<open>ipfs://\<close> followed by that digest as uri, whatever the store holds;
  for the payload \<open>hello\<close> these are the digest \<open>2cf24dba...938b9824\<close> and its uri.
\<close>

theorem put_digest_and_uri:
  "fst (add_bytes root p) = (hexlify (sha256 p), ''ipfs://'' @ hexlify (sha256 p))
   \<and> fst (add_bytes root [0x68, 0x65, 0x6C, 0x6C, 0x6F])
       = (''2cf24dba5fb0a30e26e83b2ac5b9e29e1b161e5c1fa7425e73043362938b9824'',
          ''ipfs://2cf24dba5fb0a30e26e83b2ac5b9e29e1b161e5c1fa7425e73043362938b9824'')"
proof
  show "fst (add_bytes root p) = (hexlify (sha256 p), ''ipfs://'' @ hexlify (sha256 p))"
    using add_bytes_address [of root p] by (simp add: sha256_hexdigest_def)
next
  show "fst (add_bytes root [0x68, 0x65, 0x6C, 0x6C, 0x6F])
       = (''2cf24dba5fb0a30e26e83b2ac5b9e29e1b161e5c1fa7425e73043362938b9824'',
          ''ipfs://2cf24dba5fb0a30e26e83b2ac5b9e29e1b161e5c1fa7425e73043362938b9824'')"
    unfolding add_bytes_address sha256_hello by simp
qed

lemma split_on_absent: "c \<notin> set s \<Longrightarrow> split_on c s = [s]"
  by (induction s) auto

lemma length_utf8: "length (utf8 s) \<le> 2 * length s"
  by (induction s) (simp_all add: utf8_def utf8_char_def Let_def)

lemma sha256_hexdigest_entry:
  "CHR 0x00 \<notin> set (sha256_hexdigest q)
   \<and> take 1 (sha256_hexdigest q) \<noteq> ''/''
   \<and> path_names (sha256_hexdigest q) = [sha256_hexdigest q]
   \<and> sha256_hexdigest q \<noteq> ''..''
   \<and> length (utf8 (sha256_hexdigest q)) \<le> name_max"
proof -
  let ?d = "sha256_hexdigest q"
  have chars: "set ?d \<subseteq> set hex_alphabet"
    unfolding sha256_hexdigest_def by (rule hexlify_chars)
  have len: "length ?d = 64"
    by (simp add: sha256_hexdigest_def length_hexlify length_sha256)
  have "CHR ''/'' \<notin> set hex_alphabet" and "CHR 0x00 \<notin> set hex_alphabet"
    by (simp_all add: hex_alphabet_def)
  with chars have slash: "CHR ''/'' \<notin> set ?d" and nul: "CHR 0x00 \<notin> set ?d"
    by blast+
  from len have ne: "?d \<noteq> []" and dot: "?d \<noteq> ''.''" and dots: "?d \<noteq> ''..''"
    by auto
  from slash ne have rel: "take 1 ?d \<noteq> ''/''"
    by (cases ?d) auto
  from slash ne dot have names: "path_names ?d = [?d]"
    by (simp add: path_names_def split_on_absent)
  from len length_utf8 [of ?d] have "length (utf8 ?d) \<le> name_max"
    by (simp add: name_max_def)
  with nul rel names dots show ?thesis
    by blast
qed

lemma get_digest:
  "get outside root (sha256_hexdigest q)
     = (case root (sha256_hexdigest q) of None \<Rightarrow> Inl FileNotFoundError | Some b \<Rightarrow> Inr b)"
proof -
  have key: "str_replace ''ipfs://'' [] (sha256_hexdigest q) = sha256_hexdigest q"
    unfolding sha256_hexdigest_def by (rule strip_hexlify)
  show ?thesis
    unfolding get_def key Let_def using sha256_hexdigest_entry [of q] by simp
qed

lemma get_uri: "get outside root (''ipfs://'' @ cid) = get outside root cid"
  unfolding get_def strip_scheme by (rule refl)

lemma get_uri_chars:
  "get outside root
       (CHR ''i'' # CHR ''p'' # CHR ''f'' # CHR ''s'' # CHR '':'' # CHR ''/'' # CHR ''/'' # cid)
     = get outside root cid"
  using get_uri [of outside root cid] by simp

text \<open>
  C3, as stated, fails: when the store already holds other bytes under the digest of
  \<open>hello\<close> (here the empty file), \<open>add_bytes\<close> skips the write and \<open>get\<close> on the returned
  uri yields those bytes, not the payload.
\<close>

theorem round_trip_counterexample:
  "(case add_bytes [''2cf24dba5fb0a30e26e83b2ac5b9e29e1b161e5c1fa7425e73043362938b9824'' \<mapsto> []]
           [0x68, 0x65, 0x6C, 0x6C, 0x6F] of
      ((h, uri), root') \<Rightarrow> get (\<lambda>path. Inl FileNotFoundError) root' uri)
     \<noteq> Inr [0x68, 0x65, 0x6C, 0x6C, 0x6F]"
proof -
  let ?d = "sha256_hexdigest [0x68, 0x65, 0x6C, 0x6C, 0x6F]"
  have "(case add_bytes [?d \<mapsto> []] [0x68, 0x65, 0x6C, 0x6C, 0x6F] of
           ((h, uri), root') \<Rightarrow> get (\<lambda>path. Inl FileNotFoundError) root' uri) = Inr []"
    by (simp add: add_bytes_def Let_def get_uri_chars get_digest)
  then show ?thesis
    unfolding sha256_hello by simp
qed

text \<open>
  C3, amended. For every payload \<open>p\<close> and every store that holds no object under the digest
  of \<open>p\<close>, or holds \<open>p\<close> itself there, \<open>get\<close> applied to the uri that \<open>add_bytes\<close> returns
  yields exactly \<open>p\<close>.
\<close>

theorem round_trip:
  assumes "root (sha256_hexdigest p) = None \<or> root (sha256_hexdigest p) = Some p"
  shows "(case add_bytes root p of ((h, uri), root') \<Rightarrow> get outside root' uri) = Inr p"
  using assms by (auto simp: add_bytes_def Let_def get_uri_chars get_digest)

text \<open>The round trip on the empty store, for the payload \<open>hello\<close>.\<close>

theorem round_trip_witness:
  "(Map.empty (sha256_hexdigest [0x68, 0x65, 0x6C, 0x6C, 0x6F]) = None
      \<or> Map.empty (sha256_hexdigest [0x68, 0x65, 0x6C, 0x6C, 0x6F])
          = Some [0x68, 0x65, 0x6C, 0x6C, 0x6F])
   \<and> (case add_bytes Map.empty [0x68, 0x65, 0x6C, 0x6C, 0x6F] of
          ((h, uri), root') \<Rightarrow> get (\<lambda>path. Inl FileNotFoundError) root' uri)
      = Inr [0x68, 0x65, 0x6C, 0x6C, 0x6F]"
  using round_trip [of Map.empty "[0x68, 0x65, 0x6C, 0x6C, 0x6F]" "(\<lambda>path. Inl FileNotFoundError)"]
  by simp

text \<open>
  C4. Storing a payload twice returns the same address both times; the second call leaves
  the store as the first left it; afterwards the store holds an object under the digest,
  and no key but the digest was added; bytes already stored under the digest before the
  first call are still there, unverified and not overwritten.
\<close>

theorem put_idempotent:
  "(case add_bytes root p of
      (addr1, root1) \<Rightarrow>
        (case add_bytes root1 p of
           (addr2, root2) \<Rightarrow>
             addr1 = addr2 \<and> root2 = root1
             \<and> dom root2 = insert (fst addr1) (dom root)
             \<and> (\<forall>q. root (fst addr1) = Some q \<longrightarrow> root2 (fst addr1) = Some q)
             \<and> (root (fst addr1) = None \<longrightarrow> root2 (fst addr1) = Some p)))"
  by (auto simp: add_bytes_def Let_def)

text \<open>
  Both cases at the payload \<open>hello\<close>: on the empty store the payload is stored, on a
  store that holds another file under the digest that file stays.
\<close>

theorem put_idempotent_witness:
  "(case add_bytes Map.empty [0x68, 0x65, 0x6C, 0x6C, 0x6F] of
      (addr1, root1) \<Rightarrow>
        (case add_bytes root1 [0x68, 0x65, 0x6C, 0x6C, 0x6F] of
           (addr2, root2) \<Rightarrow>
             Map.empty (fst addr1) = (None :: bytes option)
             \<and> root2 (fst addr1) = Some [0x68, 0x65, 0x6C, 0x6C, 0x6F]))
   \<and> (case add_bytes [sha256_hexdigest [0x68, 0x65, 0x6C, 0x6C, 0x6F] \<mapsto> [0x68]]
             [0x68, 0x65, 0x6C, 0x6C, 0x6F] of
      (addr1, root1) \<Rightarrow>
        (case add_bytes root1 [0x68, 0x65, 0x6C, 0x6C, 0x6F] of
           (addr2, root2) \<Rightarrow>
             [sha256_hexdigest [0x68, 0x65, 0x6C, 0x6C, 0x6F] \<mapsto> [0x68]] (fst addr1)
               = Some [0x68]
             \<and> root2 (fst addr1) = Some [0x68]))"
  using put_idempotent [of Map.empty "[0x68, 0x65, 0x6C, 0x6C, 0x6F]"]
    put_idempotent [of "[sha256_hexdigest [0x68, 0x65, 0x6C, 0x6C, 0x6F] \<mapsto> [0x68]]"
      "[0x68, 0x65, 0x6C, 0x6C, 0x6F]"]
  by (simp add: add_bytes_def Let_def split: prod.splits)

text \<open>
  C7. For an object stored under a digest, \<open>get\<close> with the bare digest and \<open>get\<close> with the
  \<open>ipfs://\<close> form of it return the same stored bytes; the scheme prefix is stripped and
  the digest is the key.
\<close>

theorem get_accepts_both_forms:
  assumes "root (sha256_hexdigest p) = Some b"
  shows "get outside root (sha256_hexdigest p) = Inr b
         \<and> get outside root (''ipfs://'' @ sha256_hexdigest p) = Inr b
         \<and> str_replace ''ipfs://'' [] (''ipfs://'' @ sha256_hexdigest p) = sha256_hexdigest p"
proof -
  have "str_replace ''ipfs://'' [] (''ipfs://'' @ sha256_hexdigest p) = sha256_hexdigest p"
    unfolding sha256_hexdigest_def by (rule strip_uri)
  with assms show ?thesis
    unfolding get_uri by (simp add: get_digest)
qed

text \<open>The payload \<open>hello\<close>, stored in the empty store, read back in both forms.\<close>

theorem get_accepts_both_forms_witness:
  "snd (add_bytes Map.empty [0x68, 0x65, 0x6C, 0x6C, 0x6F])
       (sha256_hexdigest [0x68, 0x65, 0x6C, 0x6C, 0x6F]) = Some [0x68, 0x65, 0x6C, 0x6C, 0x6F]
   \<and> get (\<lambda>path. Inl FileNotFoundError) (snd (add_bytes Map.empty [0x68, 0x65, 0x6C, 0x6C, 0x6F]))
         ''2cf24dba5fb0a30e26e83b2ac5b9e29e1b161e5c1fa7425e73043362938b9824''
       = Inr [0x68, 0x65, 0x6C, 0x6C, 0x6F]
   \<and> get (\<lambda>path. Inl FileNotFoundError) (snd (add_bytes Map.empty [0x68, 0x65, 0x6C, 0x6C, 0x6F]))
         ''ipfs://2cf24dba5fb0a30e26e83b2ac5b9e29e1b161e5c1fa7425e73043362938b9824''
       = Inr [0x68, 0x65, 0x6C, 0x6C, 0x6F]"
proof -
  have stored: "snd (add_bytes Map.empty [0x68, 0x65, 0x6C, 0x6C, 0x6F])
       (sha256_hexdigest [0x68, 0x65, 0x6C, 0x6C, 0x6F]) = Some [0x68, 0x65, 0x6C, 0x6C, 0x6F]"
    by (simp add: add_bytes_def Let_def)
  from get_accepts_both_forms
      [of "snd (add_bytes Map.empty [0x68, 0x65, 0x6C, 0x6C, 0x6F])"
        "[0x68, 0x65, 0x6C, 0x6C, 0x6F]" "[0x68, 0x65, 0x6C, 0x6C, 0x6F]"
        "(\<lambda>path. Inl FileNotFoundError)", OF stored] stored
  show ?thesis
    unfolding sha256_hello by simp
qed

lemma strip_example: "str_replace ''ipfs://'' [] ''ipfs://ab'' = ''ab''"
  using str_replace_prefix [of "''ipfs://''" "[]" "''ab''"]
    str_replace_absent [of "CHR ''i''" "''ab''" "''pfs://''" "[]"]
  by simp

lemma strip_scheme_only: "str_replace ''ipfs://'' [] ''ipfs://'' = []"
  using str_replace_prefix [of "''ipfs://''" "[]" "[]"]
    str_replace_absent [of "CHR ''i''" "[]" "''pfs://''" "[]"]
  by simp

text \<open>
  C8, as stated, fails: for the argument \<open>ipfs://\<close> the resolved key is empty and the store
  holds no object under it, yet \<open>get\<close> does not fail with \<open>FileNotFoundError\<close>: the path is
  the store directory itself, and reading it raises \<open>IsADirectoryError\<close>.
\<close>

theorem get_not_found_counterexample:
  "Map.empty (str_replace ''ipfs://'' [] ''ipfs://'') = (None :: bytes option)
   \<and> get (\<lambda>path. Inl FileNotFoundError) Map.empty ''ipfs://'' \<noteq> Inl FileNotFoundError
   \<and> get (\<lambda>path. Inl FileNotFoundError) Map.empty ''ipfs://'' = Inl IsADirectoryError"
  by (simp add: get_def strip_scheme_only path_names_def)

text \<open>
  C8, amended. When the resolved key names an entry of the store directory (it has no NUL
  character, is not absolute, consists of one name \<open>n\<close> other than \<open>..\<close>, and \<open>n\<close> has at
  most \<open>name_max\<close> bytes, as every digest has), \<open>get\<close> fails with \<open>FileNotFoundError\<close>
  exactly when the store holds no file \<open>n\<close> and returns the bytes of that file otherwise;
  \<open>FileNotFoundError\<close> is then its only failure, and it is another exception than the
  \<open>IsADirectoryError\<close>, \<open>OSError\<close> and \<open>ValueError\<close> that \<open>get\<close> raises at other keys.
\<close>

theorem get_not_found:
  assumes "CHR 0x00 \<notin> set (str_replace ''ipfs://'' [] cid)"
    and "take 1 (str_replace ''ipfs://'' [] cid) \<noteq> ''/''"
    and "path_names (str_replace ''ipfs://'' [] cid) = [n]"
    and "n \<noteq> ''..''"
    and "length (utf8 n) \<le> name_max"
  shows "(get outside root cid = Inl FileNotFoundError \<longleftrightarrow> root n = None)
         \<and> (\<forall>b. root n = Some b \<longrightarrow> get outside root cid = Inr b)
         \<and> (\<forall>e. get outside root cid = Inl e \<longrightarrow> e = FileNotFoundError)
         \<and> FileNotFoundError \<notin> {IsADirectoryError, OSError, ValueError}"
  using assms by (auto simp: get_def Let_def split: option.splits)

text \<open>The key \<open>ab\<close>, given as \<open>ipfs://ab\<close>: absent from the empty store, present in another.\<close>

theorem get_not_found_witness:
  "CHR 0x00 \<notin> set (str_replace ''ipfs://'' [] ''ipfs://ab'')
   \<and> take 1 (str_replace ''ipfs://'' [] ''ipfs://ab'') \<noteq> ''/''
   \<and> path_names (str_replace ''ipfs://'' [] ''ipfs://ab'') = [''ab'']
   \<and> ''ab'' \<noteq> ''..''
   \<and> length (utf8 ''ab'') \<le> name_max
   \<and> Map.empty ''ab'' = (None :: bytes option)
   \<and> get (\<lambda>path. Inl FileNotFoundError) Map.empty ''ipfs://ab'' = Inl FileNotFoundError
   \<and> [''ab'' \<mapsto> [0x01 :: byte]] ''ab'' = Some [0x01]
   \<and> get (\<lambda>path. Inl FileNotFoundError) [''ab'' \<mapsto> [0x01]] ''ipfs://ab'' = Inr [0x01]"
proof -
  have nul: "CHR 0x00 \<notin> set (str_replace ''ipfs://'' [] ''ipfs://ab'')"
    and rel: "take 1 (str_replace ''ipfs://'' [] ''ipfs://ab'') \<noteq> ''/''"
    and names: "path_names (str_replace ''ipfs://'' [] ''ipfs://ab'') = [''ab'']"
    unfolding strip_example by (simp_all add: path_names_def)
  have other: "''ab'' \<noteq> ''..''"
    by simp
  have short: "length (utf8 ''ab'') \<le> name_max"
    by (simp add: utf8_def utf8_char_def name_max_def)
  from get_not_found [OF nul rel names other short, of "\<lambda>path. Inl FileNotFoundError" Map.empty]
    get_not_found [OF nul rel names other short, of "\<lambda>path. Inl FileNotFoundError"
      "[''ab'' \<mapsto> [0x01]]"]
    nul rel names short
  show ?thesis
    by simp
qed

section \<open>Properties of the commit command\<close>

lemma parents_fromhex_length: "parents_fromhex ps = Inr bs \<Longrightarrow> length bs = length ps"
  by (induction ps arbitrary: bs) (auto split: sum.splits)

lemma abi_encode_succeeds: "encode_all vs = Inr cs \<Longrightarrow> \<exists>encoded. abi_encode vs = Inr encoded"
  by (simp add: abi_encode_def Let_def)

lemma abi_encode_fails: "encode_all vs = Inl e \<Longrightarrow> abi_encode vs = Inl e"
  by (simp add: abi_encode_def)

lemma commit_unfold:
  "commit ipfs data rnd parents =
     (case (if parents \<noteq> [] then parents_fromhex parents else Inr [replicate 32 0]) of
        Inl e \<Rightarrow> (Inl e, snd (add_bytes ipfs data))
      | Inr parent_bytes \<Rightarrow>
          (case abi_encode
                  [Bytes32Array parent_bytes, Uint64 rnd,
                   Bytes32 (keccak_text ''client1,client2''),
                   Bytes32 (keccak_text ''lr=0.01,bs=32''), Bytes32 (sha256 data),
                   String (''ipfs://'' @ sha256_hexdigest data)] of
             Inl e \<Rightarrow> (Inl e, snd (add_bytes ipfs data))
           | Inr encoded \<Rightarrow>
               (Inr \<lparr>ci_id = keccak256 encoded,
                     ci_parents = parent_bytes,
                     ci_round = rnd,
                     ci_clientsHash = keccak_text ''client1,client2'',
                     ci_hyperparamsHash = keccak_text ''lr=0.01,bs=32'',
                     ci_artifactHash = sha256 data,
                     ci_artifactURI = ''ipfs://'' @ sha256_hexdigest data,
                     ci_scores = \<lparr>accTimes1e4 = 0, lossTimes1e4 = 0\<rparr>,
                     ci_aggregatorSig = []\<rparr>,
                snd (add_bytes ipfs data))))"
proof -
  have hash: "to_bytes_hexstr (sha256_hexdigest data) = Inr (sha256 data)"
    unfolding sha256_hexdigest_def by (rule to_bytes_hexlify)
  show ?thesis
    unfolding commit_def add_bytes_def Let_def
    by (simp add: hash del: append.simps split: sum.splits)
qed

lemma commit_root_succeeds:
  assumes "0 \<le> rnd" and "rnd < 2 ^ 64"
  shows "\<exists>r. commit ipfs data rnd [] = (Inr r, snd (add_bytes ipfs data))"
proof -
  have "\<exists>cs. encode_all
          [Bytes32Array [replicate 32 0], Uint64 rnd,
           Bytes32 (keccak_text ''client1,client2''),
           Bytes32 (keccak_text ''lr=0.01,bs=32''), Bytes32 (sha256 data),
           String (''ipfs://'' @ sha256_hexdigest data)] = Inr cs"
    using assms length_keccak256 by (simp add: keccak_text_def length_sha256 del: append.simps)
  then obtain encoded where
    "abi_encode
          [Bytes32Array [replicate 32 0], Uint64 rnd,
           Bytes32 (keccak_text ''client1,client2''),
           Bytes32 (keccak_text ''lr=0.01,bs=32''), Bytes32 (sha256 data),
           String (''ipfs://'' @ sha256_hexdigest data)] = Inr encoded"
    using abi_encode_succeeds by blast
  then show ?thesis
    unfolding commit_unfold by simp
qed

lemma commit_id_of_fields:
  assumes "commit ipfs data rnd parents = (Inr r, ipfs')"
  shows "\<exists>encoded.
           abi_encode
             [Bytes32Array (ci_parents r), Uint64 (ci_round r), Bytes32 (ci_clientsHash r),
              Bytes32 (ci_hyperparamsHash r), Bytes32 (ci_artifactHash r),
              String (ci_artifactURI r)] = Inr encoded
           \<and> ci_id r = keccak256 encoded"
  using assms unfolding commit_unfold
  by (auto simp del: append.simps split: sum.splits if_splits)

text \<open>
  C1. Whenever \<open>commit\<close> submits a record, the id of that record is Keccak-256 of the ABI
  encoding, with the types \<open>bytes32[]\<close>, \<open>uint64\<close>, \<open>bytes32\<close>, \<open>bytes32\<close>, \<open>bytes32\<close>,
  \<open>string\<close>, of the record's own parents, round, clientsHash, hyperparamsHash, artifactHash
  and artifactURI, in this order.
\<close>

theorem commit_id_derived:
  assumes "commit ipfs data rnd parents = (Inr r, ipfs')"
  shows "\<exists>encoded.
           abi_encode
             [Bytes32Array (ci_parents r), Uint64 (ci_round r), Bytes32 (ci_clientsHash r),
              Bytes32 (ci_hyperparamsHash r), Bytes32 (ci_artifactHash r),
              String (ci_artifactURI r)] = Inr encoded
           \<and> ci_id r = keccak256 encoded"
  using assms by (rule commit_id_of_fields)

text \<open>A root commit of the artifact \<open>hello\<close> in round 1 is submitted, with such an id.\<close>

theorem commit_id_derived_witness:
  "(case commit Map.empty [0x68, 0x65, 0x6C, 0x6C, 0x6F] 1 [] of
      (Inr r, ipfs') \<Rightarrow>
        (\<exists>encoded.
           abi_encode
             [Bytes32Array (ci_parents r), Uint64 (ci_round r), Bytes32 (ci_clientsHash r),
              Bytes32 (ci_hyperparamsHash r), Bytes32 (ci_artifactHash r),
              String (ci_artifactURI r)] = Inr encoded
           \<and> ci_id r = keccak256 encoded)
    | (Inl e, ipfs') \<Rightarrow> False)"
proof -
  obtain r where ok:
    "commit Map.empty [0x68, 0x65, 0x6C, 0x6C, 0x6F] 1 []
       = (Inr r, snd (add_bytes Map.empty [0x68, 0x65, 0x6C, 0x6C, 0x6F]))"
    using commit_root_succeeds [of 1 Map.empty "[0x68, 0x65, 0x6C, 0x6C, 0x6F]"] by auto
  from commit_id_derived [OF ok] show ?thesis
    unfolding ok by simp
qed

text \<open>
  C5. A commit without parent arguments submits the parents sequence that consists of the
  one all-zero 32-byte value; its encoding is the length 1 followed by 32 zero bytes, and
  the id is the hash of the encoding with this sequence. With or without parent arguments,
  the submitted parents sequence is never empty.
\<close>

theorem root_sentinel:
  "(commit ipfs data rnd [] = (Inr r, ipfs') \<longrightarrow>
      ci_parents r = [replicate 32 0]
      \<and> encode_value (Bytes32Array (ci_parents r)) = Inr (encode_uint_256 1 @ replicate 32 0)
      \<and> (\<exists>encoded.
            abi_encode
              [Bytes32Array [replicate 32 0], Uint64 (ci_round r), Bytes32 (ci_clientsHash r),
               Bytes32 (ci_hyperparamsHash r), Bytes32 (ci_artifactHash r),
               String (ci_artifactURI r)] = Inr encoded
            \<and> ci_id r = keccak256 encoded))
   \<and> (commit ipfs data rnd parents = (Inr r', ipfs'') \<longrightarrow> ci_parents r' \<noteq> [])"
proof (intro conjI impI)
  assume root: "commit ipfs data rnd [] = (Inr r, ipfs')"
  then show sentinel: "ci_parents r = [replicate 32 0]"
    unfolding commit_unfold by (auto simp del: append.simps split: sum.splits)
  then show "encode_value (Bytes32Array (ci_parents r)) = Inr (encode_uint_256 1 @ replicate 32 0)"
    by (simp add: zpad_right_def)
  from commit_id_of_fields [OF root] sentinel
  show "\<exists>encoded.
            abi_encode
              [Bytes32Array [replicate 32 0], Uint64 (ci_round r), Bytes32 (ci_clientsHash r),
               Bytes32 (ci_hyperparamsHash r), Bytes32 (ci_artifactHash r),
               String (ci_artifactURI r)] = Inr encoded
            \<and> ci_id r = keccak256 encoded"
    by simp
next
  assume "commit ipfs data rnd parents = (Inr r', ipfs'')"
  then show "ci_parents r' \<noteq> []"
    unfolding commit_unfold
    by (auto simp del: append.simps split: sum.splits if_splits dest: parents_fromhex_length)
qed

text \<open>The root commit of the artifact \<open>hello\<close> in round 1.\<close>

theorem root_sentinel_witness:
  "(case commit Map.empty [0x68, 0x65, 0x6C, 0x6C, 0x6F] 1 [] of
      (Inr r, ipfs') \<Rightarrow>
        ci_parents r = [replicate 32 0]
        \<and> encode_value (Bytes32Array (ci_parents r)) = Inr (encode_uint_256 1 @ replicate 32 0)
        \<and> ci_parents r \<noteq> []
    | (Inl e, ipfs') \<Rightarrow> False)"
proof -
  obtain r where ok:
    "commit Map.empty [0x68, 0x65, 0x6C, 0x6C, 0x6F] 1 []
       = (Inr r, snd (add_bytes Map.empty [0x68, 0x65, 0x6C, 0x6C, 0x6F]))"
    using commit_root_succeeds [of 1 Map.empty "[0x68, 0x65, 0x6C, 0x6C, 0x6F]"] by auto
  from root_sentinel
    [of Map.empty "[0x68, 0x65, 0x6C, 0x6C, 0x6F]" 1 r
      "snd (add_bytes Map.empty [0x68, 0x65, 0x6C, 0x6C, 0x6F])" "[]" r
      "snd (add_bytes Map.empty [0x68, 0x65, 0x6C, 0x6C, 0x6F])"] ok
  show ?thesis
    unfolding ok by (simp add: zpad_right_def)
qed

text \<open>
  C10. Every submitted record has Keccak-256 of the text \<open>client1,client2\<close> as clientsHash
  and Keccak-256 of the text \<open>lr=0.01,bs=32\<close> as hyperparamsHash; two commits of the same
  artifact bytes, round and parents submit the same id (and the same record), whatever the
  store held before.
\<close>

theorem commit_fixed_metadata:
  assumes "commit ipfs1 data rnd parents = (Inr r1, s1)"
    and "commit ipfs2 data rnd parents = (Inr r2, s2)"
  shows "ci_id r1 = ci_id r2 \<and> r1 = r2
         \<and> ci_clientsHash r1 = keccak256 (utf8 ''client1,client2'')
         \<and> ci_hyperparamsHash r1 = keccak256 (utf8 ''lr=0.01,bs=32'')"
  using assms unfolding commit_unfold keccak_text_def
  by (auto simp del: append.simps split: sum.splits if_splits)

text \<open>The same root commit against two different stores.\<close>

theorem commit_fixed_metadata_witness:
  "(case (commit Map.empty [0x68, 0x65, 0x6C, 0x6C, 0x6F] 1 [],
          commit [''x'' \<mapsto> []] [0x68, 0x65, 0x6C, 0x6C, 0x6F] 1 []) of
      ((Inr r1, s1), (Inr r2, s2)) \<Rightarrow>
        ci_id r1 = ci_id r2
        \<and> ci_clientsHash r1 = keccak256 (utf8 ''client1,client2'')
        \<and> ci_hyperparamsHash r1 = keccak256 (utf8 ''lr=0.01,bs=32'')
    | _ \<Rightarrow> False)"
proof -
  obtain r1 where ok1:
    "commit Map.empty [0x68, 0x65, 0x6C, 0x6C, 0x6F] 1 []
       = (Inr r1, snd (add_bytes Map.empty [0x68, 0x65, 0x6C, 0x6C, 0x6F]))"
    using commit_root_succeeds [of 1 Map.empty "[0x68, 0x65, 0x6C, 0x6C, 0x6F]"] by auto
  obtain r2 where ok2:
    "commit [''x'' \<mapsto> []] [0x68, 0x65, 0x6C, 0x6C, 0x6F] 1 []
       = (Inr r2, snd (add_bytes [''x'' \<mapsto> []] [0x68, 0x65, 0x6C, 0x6C, 0x6F]))"
    using commit_root_succeeds [of 1 "[''x'' \<mapsto> []]" "[0x68, 0x65, 0x6C, 0x6C, 0x6F]"] by auto
  from commit_fixed_metadata [OF ok1 ok2] show ?thesis
    unfolding ok1 ok2 by auto
qed

text \<open>
  The parents are encoded in the order given: exchanging two different 32-byte parents
  changes the bytes that are hashed.
\<close>

lemma length_big_endian: "length (big_endian k n) = k"
  by (induction k arbitrary: n) simp_all

lemma length_encode_uint_256: "length (encode_uint_256 n) = 32"
  by (simp add: encode_uint_256_def length_big_endian)

lemma parent_order_changes_encoding:
  assumes "length A = 32" and "length B = 32" and "A \<noteq> B"
    and "abi_encode [Bytes32Array [A, B], Uint64 v, Bytes32 c, Bytes32 h, Bytes32 a, String u]
           = Inr e1"
    and "abi_encode [Bytes32Array [B, A], Uint64 v, Bytes32 c, Bytes32 h, Bytes32 a, String u]
           = Inr e2"
  shows "e1 \<noteq> e2"
  using assms
  by (auto simp: abi_encode_def Let_def zpad_right_def length_encode_uint_256
      split: if_splits sum.splits)

section \<open>The statements after the first return of deploy\<close>
















end
